theory Spec2Isabelle
  imports Main
begin

section \<open>DojotClientHttp: an HTTP request that is retried on failure\<close>

text \<open>
  A shallow embedding of \<^verbatim>\<open>lib/webUtils/DojotClientHttp.js\<close>. The class wraps an axios
  instance: \<^verbatim>\<open>request\<close> builds the retry configuration and calls \<^verbatim>\<open>doRequest\<close>, which sends
  the request and either resolves the promise or hands the failure to \<^verbatim>\<open>retry\<close>; \<^verbatim>\<open>retry\<close>
  either rejects the promise or logs, sets a timer and calls \<^verbatim>\<open>doRequest\<close> again.

  JavaScript numbers that hold integers (the milliseconds the caller passes, attempt counts,
  HTTP status codes) are modelled as \<^typ>\<open>int\<close>. An argument that the caller may leave out
  (\<^verbatim>\<open>undefined\<close>) is an \<^typ>\<open>int option\<close>. The retry delay is multiplied as the request goes on,
  and a JavaScript product that leaves the range of a double is an infinity, so the delay in
  force is a \<open>jsNumber\<close>.
\<close>

subsection \<open>Data\<close>

text \<open>
  A JavaScript number as the retry delay can hold it: an integer, or the \<^verbatim>\<open>Infinity\<close> or
  \<^verbatim>\<open>-Infinity\<close> that an overflowing product gives.
\<close>

datatype jsNumber = Num int | PlusInfinity | MinusInfinity

text \<open>The axios response, as far as the class reads it: the HTTP status, and a body.\<close>

datatype response = Response (status: int) (data: string)

text \<open>
  The error axios rejects with: a message, and the response when the server answered
  (absent for a network error or a timeout).
\<close>

datatype requestError = RequestError (message: string) (response: "response option")

text \<open>A JavaScript \<^verbatim>\<open>Error\<close>: its message and, when one was attached, its cause.\<close>

datatype jsError = Error (errorMessage: string) (cause: "requestError option")

text \<open>
  What one request does to the outside, in order: a call of the axios instance, a line
  written by \<^verbatim>\<open>logger.error\<close>, the two \<^verbatim>\<open>logger.debug\<close> lines (\<^verbatim>\<open>Retrying in ${retryDelay}\<close>
  and \<^verbatim>\<open>Retrying response - attempt:${attempts + 1}.\<close>, each kept as the number it prints),
  and a \<^verbatim>\<open>setTimeout\<close> with its delay.
\<close>

datatype event =
    AxiosCall
  | LoggerError string
  | LoggerDebugRetryingIn jsNumber
  | SetTimeout jsNumber
  | LoggerDebugAttempt int

text \<open>The promise returned by \<^verbatim>\<open>request\<close>.\<close>

datatype promise = Pending | Resolved response | Rejected jsError

text \<open>
  The instance. \<^verbatim>\<open>this.axios\<close> is the transport: \<open>axios this options k\<close> is how the call
  number \<open>k\<close> (counted from 0) made with \<open>options\<close> settles, \<open>Inr\<close> a response or \<open>Inl\<close>
  the error.
\<close>

record 'o DojotClientHttp =
  axios :: "'o \<Rightarrow> nat \<Rightarrow> requestError + response"
  defaultRetryDelay :: int
  defaultMaxNumberAttempts :: int

text \<open>The object \<^verbatim>\<open>{ attempts, retryDelay, maxNumberAttempts }\<close> passed from call to call.\<close>

record configRetryRequest =
  attempts :: int
  retryDelay :: jsNumber
  maxNumberAttempts :: int

subsection \<open>Arithmetic and order of the delay\<close>

text \<open>
  The first power of two that a double cannot hold: a product that reaches it, on either side
  of zero, is an infinity.
\<close>

definition overflowAt :: int where
  "overflowAt = 2 ^ 1024"

text \<open>
  \<^verbatim>\<open>x * 2\<close> on a JavaScript number. Doubling a double is exact as long as the result is in
  range; an infinity stays what it is.
\<close>

fun timesTwo :: "jsNumber \<Rightarrow> jsNumber" where
  "timesTwo (Num x) =
     (if overflowAt \<le> x * 2 then PlusInfinity
      else if x * 2 \<le> - overflowAt then MinusInfinity
      else Num (x * 2))"
| "timesTwo PlusInfinity = PlusInfinity"
| "timesTwo MinusInfinity = MinusInfinity"

text \<open>The order of JavaScript numbers: that of the integers, between the two infinities.\<close>

instantiation jsNumber :: linorder
begin

fun less_eq_jsNumber :: "jsNumber \<Rightarrow> jsNumber \<Rightarrow> bool" where
  "less_eq_jsNumber MinusInfinity y = True"
| "less_eq_jsNumber (Num x) MinusInfinity = False"
| "less_eq_jsNumber (Num x) (Num y) = (x \<le> y)"
| "less_eq_jsNumber (Num x) PlusInfinity = True"
| "less_eq_jsNumber PlusInfinity PlusInfinity = True"
| "less_eq_jsNumber PlusInfinity y = False"

definition less_jsNumber :: "jsNumber \<Rightarrow> jsNumber \<Rightarrow> bool" where
  "less_jsNumber x y = (x \<le> y \<and> \<not> y \<le> x)"

instance
proof
  fix x y z :: jsNumber
  show "(x < y) = (x \<le> y \<and> \<not> y \<le> x)"
    by (simp add: less_jsNumber_def)
  show "x \<le> x"
    by (cases x) simp_all
  show "x \<le> y \<Longrightarrow> y \<le> z \<Longrightarrow> x \<le> z"
    by (cases x; cases y; cases z) simp_all
  show "x \<le> y \<Longrightarrow> y \<le> x \<Longrightarrow> x = y"
    by (cases x; cases y) simp_all
  show "x \<le> y \<or> y \<le> x"
    by (cases x; cases y) auto
qed

end

subsection \<open>Operations\<close>

text \<open>
  The constructor, with the defaults of its destructured parameter: 5000 ms and 3 attempts
  when the caller gives none.
\<close>

definition new_DojotClientHttp ::
  "('o \<Rightarrow> nat \<Rightarrow> requestError + response) \<Rightarrow> int option \<Rightarrow> int option \<Rightarrow> 'o DojotClientHttp"
where
  "new_DojotClientHttp transport dRetryDelay dMaxNumberAttempts =
     \<lparr>axios = transport,
      defaultRetryDelay = (case dRetryDelay of None \<Rightarrow> 5000 | Some d \<Rightarrow> d),
      defaultMaxNumberAttempts = (case dMaxNumberAttempts of None \<Rightarrow> 3 | Some m \<Rightarrow> m)\<rparr>"

text \<open>The number of axios calls made so far.\<close>

definition sends :: "event list \<Rightarrow> nat" where
  "sends tr = count_list tr AxiosCall"

text \<open>The delays of the timers set so far, oldest first.\<close>

fun timers :: "event list \<Rightarrow> jsNumber list" where
  "timers [] = []"
| "timers (SetTimeout d # es) = d # timers es"
| "timers (e # es) = timers es"

text \<open>The attempt numbers written by the second debug line, oldest first.\<close>

fun attemptsLogged :: "event list \<Rightarrow> int list" where
  "attemptsLogged [] = []"
| "attemptsLogged (LoggerDebugAttempt a # es) = a # attemptsLogged es"
| "attemptsLogged (e # es) = attemptsLogged es"

text \<open>The delays written by the first debug line, oldest first.\<close>

fun delaysLogged :: "event list \<Rightarrow> jsNumber list" where
  "delaysLogged [] = []"
| "delaysLogged (LoggerDebugRetryingIn d # es) = d # delaysLogged es"
| "delaysLogged (e # es) = delaysLogged es"

text \<open>\<^verbatim>\<open>requestError.response && requestError.response.status === 429\<close>\<close>

definition rateLimited :: "requestError \<Rightarrow> bool" where
  "rateLimited requestError =
     (case response requestError of None \<Rightarrow> False | Some r \<Rightarrow> status r = 429)"

text \<open>
  \<^verbatim>\<open>doRequest\<close> and \<^verbatim>\<open>retry\<close> call each other, and with a transport that keeps failing and no
  cap they do so for ever. The first argument bounds how many transport outcomes are awaited:
  with none left the call has been issued and the promise is still pending. The state threaded
  through is the list of events so far; the promise's \<^verbatim>\<open>resolve\<close> and \<^verbatim>\<open>reject\<close> are the two
  settled values of the result.
\<close>

fun doRequest ::
    "nat \<Rightarrow> 'o DojotClientHttp \<Rightarrow> 'o \<Rightarrow> configRetryRequest \<Rightarrow> event list \<Rightarrow> promise \<times> event list"
  and retry ::
    "nat \<Rightarrow> 'o DojotClientHttp \<Rightarrow> requestError \<Rightarrow> 'o \<Rightarrow> configRetryRequest \<Rightarrow> event list
       \<Rightarrow> promise \<times> event list"
where
  "doRequest 0 this options configRetryRequest tr = (Pending, tr @ [AxiosCall])"
| "doRequest (Suc n) this options configRetryRequest tr =
     (case axios this options (sends tr) of
        Inr resp \<Rightarrow> (Resolved resp, tr @ [AxiosCall])
      | Inl requestError \<Rightarrow>
          retry n this requestError options configRetryRequest (tr @ [AxiosCall]))"
| "retry n this requestError options previousConfigAndStatus tr =
     (if maxNumberAttempts previousConfigAndStatus > 0
         \<and> attempts previousConfigAndStatus \<ge> maxNumberAttempts previousConfigAndStatus
      then (Rejected (Error ''Number of attempts exceeded.'' None), tr)
      else
        let newRetryDelay =
              (if rateLimited requestError then timesTwo (retryDelay previousConfigAndStatus)
               else retryDelay previousConfigAndStatus)
        in doRequest n this options
             \<lparr>attempts = attempts previousConfigAndStatus + 1,
              retryDelay = newRetryDelay,
              maxNumberAttempts = maxNumberAttempts previousConfigAndStatus\<rparr>
             (tr @ [LoggerError (message requestError),
                    LoggerDebugRetryingIn (retryDelay previousConfigAndStatus),
                    SetTimeout newRetryDelay,
                    LoggerDebugAttempt (attempts previousConfigAndStatus + 1)]))"

text \<open>
  \<^verbatim>\<open>request(options, retryDelay, maxNumberAttempts)\<close>. \<^verbatim>\<open>retryDelay || this.defaultRetryDelay\<close>
  takes the default for a missing or zero delay;
  \<^verbatim>\<open>maxNumberAttempts || maxNumberAttempts === 0 ? maxNumberAttempts : this.defaultMaxNumberAttempts\<close>
  takes the default only for a missing cap.
\<close>

definition request ::
  "nat \<Rightarrow> 'o DojotClientHttp \<Rightarrow> 'o \<Rightarrow> int option \<Rightarrow> int option \<Rightarrow> promise \<times> event list"
where
  "request n this options rDelay maxAttempts =
     doRequest n this options
       \<lparr>attempts = 0,
        retryDelay =
          Num (case rDelay of
                 None \<Rightarrow> defaultRetryDelay this
               | Some d \<Rightarrow> if d \<noteq> 0 then d else defaultRetryDelay this),
        maxNumberAttempts =
          (case maxAttempts of
             None \<Rightarrow> defaultMaxNumberAttempts this
           | Some m \<Rightarrow> if m \<noteq> 0 \<or> m = 0 then m else defaultMaxNumberAttempts this)\<rparr>
       []"

subsection \<open>Transports and clients used as concrete inputs\<close>

definition ok200 :: response where
  "ok200 = Response 200 ''ok''"

definition error500 :: requestError where
  "error500 = RequestError ''Request failed with status code 500'' (Some (Response 500 ''''))"

definition error429 :: requestError where
  "error429 = RequestError ''Request failed with status code 429'' (Some (Response 429 ''''))"

definition networkError :: requestError where
  "networkError = RequestError ''Network Error'' None"

text \<open>A transport that answers 500 to every call.\<close>

definition always500 :: "string \<Rightarrow> nat \<Rightarrow> requestError + response" where
  "always500 options k = Inl error500"

text \<open>A transport that answers 429 to every call.\<close>

definition always429 :: "string \<Rightarrow> nat \<Rightarrow> requestError + response" where
  "always429 options k = Inl error429"

text \<open>A transport that answers 429 to the first call and 200 from then on.\<close>

definition once429 :: "string \<Rightarrow> nat \<Rightarrow> requestError + response" where
  "once429 options k = (if k = 0 then Inl error429 else Inr ok200)"

text \<open>A transport with a network error on the first call and 200 from then on.\<close>

definition onceDown :: "string \<Rightarrow> nat \<Rightarrow> requestError + response" where
  "onceDown options k = (if k = 0 then Inl networkError else Inr ok200)"

text \<open>A transport that answers 500 to the first three calls and 200 from then on.\<close>

definition thrice500 :: "string \<Rightarrow> nat \<Rightarrow> requestError + response" where
  "thrice500 options k = (if k < 3 then Inl error500 else Inr ok200)"

text \<open>
  A transport that fails the first three calls, each in another way (no response, status
  500, status 429), and answers 200 from then on.
\<close>

definition mixedFailures :: "string \<Rightarrow> nat \<Rightarrow> requestError + response" where
  "mixedFailures options k =
     (if k = 0 then Inl networkError
      else if k = 1 then Inl error500
      else if k = 2 then Inl error429
      else Inr ok200)"

text \<open>A transport that answers 200 to every call.\<close>

definition always200 :: "string \<Rightarrow> nat \<Rightarrow> requestError + response" where
  "always200 options k = Inr ok200"

text \<open>The client of the two scenarios: a delay of 100 ms and a cap of 2.\<close>

definition client100x2 ::
  "(string \<Rightarrow> nat \<Rightarrow> requestError + response) \<Rightarrow> string DojotClientHttp" where
  "client100x2 transport = new_DojotClientHttp transport (Some 100) (Some 2)"

subsection \<open>Two checks on what a run logged\<close>

text \<open>
  \<open>escalates outcome k d ts\<close>: the delays \<open>ts\<close> are those of successive retries after the
  failures \<open>outcome k\<close>, \<open>outcome (k + 1)\<close>, ..., starting from the delay \<open>d\<close>: each is the one
  before it, doubled when the failure was rate limited.
\<close>

fun escalates ::
  "(nat \<Rightarrow> requestError + response) \<Rightarrow> nat \<Rightarrow> jsNumber \<Rightarrow> jsNumber list \<Rightarrow> bool" where
  "escalates outcome k d [] = True"
| "escalates outcome k d (t # ts) =
     (case outcome k of
        Inl e \<Rightarrow> t = (if rateLimited e then timesTwo d else d) \<and> escalates outcome (Suc k) t ts
      | Inr r \<Rightarrow> False)"

text \<open>\<open>countsUp a xs\<close>: the numbers \<open>xs\<close> are \<open>a + 1\<close>, \<open>a + 2\<close>, ... in this order.\<close>

fun countsUp :: "int \<Rightarrow> int list \<Rightarrow> bool" where
  "countsUp a [] = True"
| "countsUp a (x # xs) = (x = a + 1 \<and> countsUp x xs)"

section \<open>Properties\<close>

subsection \<open>Counting calls\<close>

lemma sends_Nil [simp]: "sends [] = 0"
  by (simp add: sends_def)

lemma sends_append [simp]: "sends (xs @ ys) = sends xs + sends ys"
  by (simp add: sends_def)

lemma sends_Cons [simp]: "sends (e # es) = (if e = AxiosCall then 1 else 0) + sends es"
  by (simp add: sends_def)

lemma timers_append [simp]: "timers (xs @ ys) = timers xs @ timers ys"
  by (induction xs rule: timers.induct) simp_all

lemma attemptsLogged_append [simp]:
  "attemptsLogged (xs @ ys) = attemptsLogged xs @ attemptsLogged ys"
  by (induction xs rule: attemptsLogged.induct) simp_all

lemma delaysLogged_append [simp]:
  "delaysLogged (xs @ ys) = delaysLogged xs @ delaysLogged ys"
  by (induction xs rule: delaysLogged.induct) simp_all

subsection \<open>One step of the loop\<close>

lemma retry_exceeded:
  "0 < maxNumberAttempts cfg \<Longrightarrow> maxNumberAttempts cfg \<le> attempts cfg \<Longrightarrow>
   retry n this err options cfg tr = (Rejected (Error ''Number of attempts exceeded.'' None), tr)"
  by simp

lemma retry_again:
  "maxNumberAttempts cfg \<le> 0 \<or> attempts cfg < maxNumberAttempts cfg \<Longrightarrow>
   retry n this err options cfg tr =
     doRequest n this options
       \<lparr>attempts = attempts cfg + 1,
        retryDelay = (if rateLimited err then timesTwo (retryDelay cfg) else retryDelay cfg),
        maxNumberAttempts = maxNumberAttempts cfg\<rparr>
       (tr @ [LoggerError (message err), LoggerDebugRetryingIn (retryDelay cfg),
              SetTimeout (if rateLimited err then timesTwo (retryDelay cfg) else retryDelay cfg),
              LoggerDebugAttempt (attempts cfg + 1)])"
  by (auto simp: Let_def)

declare retry.simps [simp del]

lemma doRequest_resolves:
  "axios this options (sends tr) = Inr resp \<Longrightarrow>
   doRequest (Suc n) this options cfg tr = (Resolved resp, tr @ [AxiosCall])"
  by simp

lemma doRequest_rejects:
  "axios this options (sends tr) = Inl err \<Longrightarrow>
   0 < maxNumberAttempts cfg \<Longrightarrow> maxNumberAttempts cfg \<le> attempts cfg \<Longrightarrow>
   doRequest (Suc n) this options cfg tr
     = (Rejected (Error ''Number of attempts exceeded.'' None), tr @ [AxiosCall])"
  by (simp add: retry_exceeded)

lemma doRequest_retries:
  "axios this options (sends tr) = Inl err \<Longrightarrow>
   maxNumberAttempts cfg \<le> 0 \<or> attempts cfg < maxNumberAttempts cfg \<Longrightarrow>
   doRequest (Suc n) this options cfg tr =
     doRequest n this options
       \<lparr>attempts = attempts cfg + 1,
        retryDelay = (if rateLimited err then timesTwo (retryDelay cfg) else retryDelay cfg),
        maxNumberAttempts = maxNumberAttempts cfg\<rparr>
       (tr @ [AxiosCall, LoggerError (message err), LoggerDebugRetryingIn (retryDelay cfg),
              SetTimeout (if rateLimited err then timesTwo (retryDelay cfg) else retryDelay cfg),
              LoggerDebugAttempt (attempts cfg + 1)])"
  by (simp add: retry_again)

declare doRequest.simps(2) [simp del]

subsection \<open>What a run leaves in the trace\<close>

lemma run_events:
  "\<exists>ev. snd (doRequest n this options cfg tr) = tr @ AxiosCall # ev
     \<and> sends (AxiosCall # ev) = Suc (length (timers ev))
     \<and> escalates (axios this options) (sends tr) (retryDelay cfg) (timers ev)
     \<and> delaysLogged ev = butlast (retryDelay cfg # timers ev)
     \<and> countsUp (attempts cfg) (attemptsLogged ev)
     \<and> length (attemptsLogged ev) = length (timers ev)"
proof (induction n arbitrary: cfg tr)
  case 0
  show ?case by simp
next
  case (Suc n)
  show ?case
  proof (cases "axios this options (sends tr)")
    case (Inr resp)
    then show ?thesis by (simp add: doRequest_resolves)
  next
    case (Inl err)
    show ?thesis
    proof (cases "0 < maxNumberAttempts cfg \<and> maxNumberAttempts cfg \<le> attempts cfg")
      case True
      then show ?thesis by (simp add: doRequest_rejects [OF Inl])
    next
      case False
      let ?d = "if rateLimited err then timesTwo (retryDelay cfg) else retryDelay cfg"
      let ?cfg = "\<lparr>attempts = attempts cfg + 1, retryDelay = ?d,
                    maxNumberAttempts = maxNumberAttempts cfg\<rparr>"
      let ?logs = "[LoggerError (message err), LoggerDebugRetryingIn (retryDelay cfg),
                    SetTimeout ?d, LoggerDebugAttempt (attempts cfg + 1)]"
      let ?tr = "(tr @ [AxiosCall]) @ ?logs"
      from False have go: "maxNumberAttempts cfg \<le> 0 \<or> attempts cfg < maxNumberAttempts cfg"
        by auto
      have unfold: "doRequest (Suc n) this options cfg tr = doRequest n this options ?cfg ?tr"
        by (simp add: doRequest_retries [OF Inl go])
      from Suc.IH [of ?cfg ?tr] obtain ev where
        ev: "snd (doRequest n this options ?cfg ?tr) = ?tr @ AxiosCall # ev"
        and s: "sends (AxiosCall # ev) = Suc (length (timers ev))"
        and e: "escalates (axios this options) (sends ?tr) (retryDelay ?cfg) (timers ev)"
        and d: "delaysLogged ev = butlast (retryDelay ?cfg # timers ev)"
        and c: "countsUp (attempts ?cfg) (attemptsLogged ev)"
        and l: "length (attemptsLogged ev) = length (timers ev)"
        by blast
      let ?ev = "?logs @ AxiosCall # ev"
      have "snd (doRequest (Suc n) this options cfg tr) = tr @ AxiosCall # ?ev"
        using unfold ev by simp
      moreover have "sends (AxiosCall # ?ev) = Suc (length (timers ?ev))"
        using s by simp
      moreover have "escalates (axios this options) (sends tr) (retryDelay cfg) (timers ?ev)"
        using e Inl by simp
      moreover have "delaysLogged ?ev = butlast (retryDelay cfg # timers ?ev)"
        using d by simp
      moreover have "countsUp (attempts cfg) (attemptsLogged ?ev)"
        using c by simp
      moreover have "length (attemptsLogged ?ev) = length (timers ?ev)"
        using l by simp
      ultimately show ?thesis by blast
    qed
  qed
qed


subsection \<open>Runs of failures\<close>

lemma later_calls_fail:
  assumes "\<forall>i<Suc k. isl (f (s + i))"
  shows "\<forall>i<k. isl (f (Suc s + i))"
proof (intro allI impI)
  fix i assume "i < k"
  then have "Suc i < Suc k" by simp
  with assms have "isl (f (s + Suc i))" by blast
  then show "isl (f (Suc s + i))" by simp
qed

lemma first_call_fails:
  assumes "\<forall>i<Suc k. isl (f (s + i))"
  obtains err where "f s = Inl err"
proof -
  from assms have "isl (f (s + 0))" by blast
  then show ?thesis using that by (cases "f s") simp_all
qed

lemma settled_values:
  "(case fst (doRequest n this options cfg tr) of
      Pending \<Rightarrow> True
    | Resolved resp \<Rightarrow>
        axios this options (sends (snd (doRequest n this options cfg tr)) - 1) = Inr resp
    | Rejected e \<Rightarrow> e = Error ''Number of attempts exceeded.'' None)"
proof (induction n arbitrary: cfg tr)
  case 0
  show ?case by simp
next
  case (Suc n)
  show ?case
  proof (cases "axios this options (sends tr)")
    case (Inr resp)
    then show ?thesis by (simp add: doRequest_resolves)
  next
    case (Inl err)
    show ?thesis
    proof (cases "0 < maxNumberAttempts cfg \<and> maxNumberAttempts cfg \<le> attempts cfg")
      case True
      then show ?thesis by (simp add: doRequest_rejects [OF Inl])
    next
      case False
      then have go: "maxNumberAttempts cfg \<le> 0 \<or> attempts cfg < maxNumberAttempts cfg"
        by auto
      show ?thesis
        unfolding doRequest_retries [OF Inl go] by (rule Suc.IH)
    qed
  qed
qed

lemma unbounded_never_rejects:
  "maxNumberAttempts cfg \<le> 0 \<Longrightarrow> fst (doRequest n this options cfg tr) \<noteq> Rejected e"
proof (induction n arbitrary: cfg tr)
  case 0
  show ?case by simp
next
  case (Suc n)
  show ?case
  proof (cases "axios this options (sends tr)")
    case (Inr resp)
    then show ?thesis by (simp add: doRequest_resolves)
  next
    case (Inl err)
    from Suc.prems have go: "maxNumberAttempts cfg \<le> 0 \<or> attempts cfg < maxNumberAttempts cfg"
      by simp
    show ?thesis
      unfolding doRequest_retries [OF Inl go] using Suc.prems by (intro Suc.IH) simp
  qed
qed

lemma nonpositive_cap_as_zero:
  "maxNumberAttempts cfg \<le> 0 \<Longrightarrow>
   doRequest n this options cfg tr = doRequest n this options (cfg\<lparr>maxNumberAttempts := 0\<rparr>) tr"
proof (induction n arbitrary: cfg tr)
  case 0
  show ?case by simp
next
  case (Suc n)
  show ?case
  proof (cases "axios this options (sends tr)")
    case (Inr resp)
    then show ?thesis by (simp add: doRequest_resolves)
  next
    case (Inl err)
    from Suc.prems have go: "maxNumberAttempts cfg \<le> 0 \<or> attempts cfg < maxNumberAttempts cfg"
      by simp
    have go0: "maxNumberAttempts (cfg\<lparr>maxNumberAttempts := 0\<rparr>) \<le> 0
        \<or> attempts (cfg\<lparr>maxNumberAttempts := 0\<rparr>) < maxNumberAttempts (cfg\<lparr>maxNumberAttempts := 0\<rparr>)"
      by simp
    show ?thesis
      unfolding doRequest_retries [OF Inl go] doRequest_retries [OF Inl go0]
      using Suc.prems Suc.IH [of "\<lparr>attempts = attempts cfg + 1,
        retryDelay = (if rateLimited err then timesTwo (retryDelay cfg) else retryDelay cfg),
        maxNumberAttempts = maxNumberAttempts cfg\<rparr>"] by simp
  qed
qed

lemma failures_then_success:
  assumes "\<forall>i<k. isl (axios this options (sends tr + i))"
    and "axios this options (sends tr + k) = Inr resp"
    and "maxNumberAttempts cfg \<le> 0 \<or> attempts cfg + int k \<le> maxNumberAttempts cfg"
    and "k < n"
  shows "fst (doRequest n this options cfg tr) = Resolved resp
     \<and> sends (snd (doRequest n this options cfg tr)) = sends tr + k + 1"
  using assms
proof (induction k arbitrary: n cfg tr)
  case 0
  then obtain n' where n: "n = Suc n'" by (cases n) auto
  from 0 show ?case unfolding n by (simp add: doRequest_resolves)
next
  case (Suc k)
  then obtain n' where n: "n = Suc n'" by (cases n) auto
  from Suc.prems(1) obtain err where err: "axios this options (sends tr) = Inl err"
    by (rule first_call_fails)
  from Suc.prems(3) have go: "maxNumberAttempts cfg \<le> 0 \<or> attempts cfg < maxNumberAttempts cfg"
    by auto
  let ?cfg = "\<lparr>attempts = attempts cfg + 1,
        retryDelay = (if rateLimited err then timesTwo (retryDelay cfg) else retryDelay cfg),
        maxNumberAttempts = maxNumberAttempts cfg\<rparr>"
  let ?tr = "tr @ [AxiosCall, LoggerError (message err), LoggerDebugRetryingIn (retryDelay cfg),
              SetTimeout (if rateLimited err then timesTwo (retryDelay cfg) else retryDelay cfg),
              LoggerDebugAttempt (attempts cfg + 1)]"
  have s: "sends ?tr = Suc (sends tr)" by simp
  have a: "\<forall>i<k. isl (axios this options (sends ?tr + i))"
    unfolding s using Suc.prems(1) by (rule later_calls_fail)
  have b: "axios this options (sends ?tr + k) = Inr resp"
    using Suc.prems(2) unfolding s by simp
  have c: "maxNumberAttempts ?cfg \<le> 0 \<or> attempts ?cfg + int k \<le> maxNumberAttempts ?cfg"
    using Suc.prems(3) by auto
  have d: "k < n'" using Suc.prems(4) n by simp
  from Suc.IH [OF a b c d] show ?case
    unfolding n doRequest_retries [OF err go] by (simp only: s) simp
qed

lemma failures_exhaust:
  assumes "\<forall>i<Suc k. isl (axios this options (sends tr + i))"
    and "0 < maxNumberAttempts cfg"
    and "attempts cfg + int k = maxNumberAttempts cfg"
    and "k < n"
  shows "fst (doRequest n this options cfg tr) = Rejected (Error ''Number of attempts exceeded.'' None)
     \<and> sends (snd (doRequest n this options cfg tr)) = sends tr + k + 1"
  using assms
proof (induction k arbitrary: n cfg tr)
  case 0
  then obtain n' where n: "n = Suc n'" by (cases n) auto
  from 0(1) obtain err where err: "axios this options (sends tr) = Inl err"
    by (rule first_call_fails)
  from 0 show ?case unfolding n by (simp add: doRequest_rejects [OF err])
next
  case (Suc k)
  then obtain n' where n: "n = Suc n'" by (cases n) auto
  from Suc.prems(1) obtain err where err: "axios this options (sends tr) = Inl err"
    by (rule first_call_fails)
  from Suc.prems(3) have go: "maxNumberAttempts cfg \<le> 0 \<or> attempts cfg < maxNumberAttempts cfg"
    by auto
  let ?cfg = "\<lparr>attempts = attempts cfg + 1,
        retryDelay = (if rateLimited err then timesTwo (retryDelay cfg) else retryDelay cfg),
        maxNumberAttempts = maxNumberAttempts cfg\<rparr>"
  let ?tr = "tr @ [AxiosCall, LoggerError (message err), LoggerDebugRetryingIn (retryDelay cfg),
              SetTimeout (if rateLimited err then timesTwo (retryDelay cfg) else retryDelay cfg),
              LoggerDebugAttempt (attempts cfg + 1)]"
  have s: "sends ?tr = Suc (sends tr)" by simp
  have a: "\<forall>i<Suc k. isl (axios this options (sends ?tr + i))"
    unfolding s using Suc.prems(1) by (rule later_calls_fail)
  have b: "0 < maxNumberAttempts ?cfg" using Suc.prems(2) by simp
  have c: "attempts ?cfg + int k = maxNumberAttempts ?cfg"
    using Suc.prems(3) by auto
  have d: "k < n'" using Suc.prems(4) n by simp
  from Suc.IH [OF a b c d] show ?case
    unfolding n doRequest_retries [OF err go] by (simp only: s) simp
qed


subsection \<open>Lists of delays and attempt numbers\<close>

lemma overflowAt_positive: "0 < overflowAt"
  by (simp add: overflowAt_def)


text \<open>Doubling \<open>k\<close> times a number that a double holds, in closed form.\<close>

lemma timesTwo_funpow:
  assumes "- overflowAt < d" and "d < overflowAt"
  shows "(timesTwo ^^ k) (Num d) =
     (if overflowAt \<le> d * 2 ^ k then PlusInfinity
      else if d * 2 ^ k \<le> - overflowAt then MinusInfinity
      else Num (d * 2 ^ k))"
proof (induction k)
  case 0
  show ?case using assms by simp
next
  case (Suc k)
  have e: "d * 2 ^ Suc k = d * 2 ^ k * 2" by simp
  have f: "(timesTwo ^^ Suc k) (Num d) = timesTwo ((timesTwo ^^ k) (Num d))" by simp
  show ?case
    unfolding f Suc.IH e using overflowAt_positive by auto
qed



lemma escalates_geometric:
  "escalates outcome k d ts \<Longrightarrow> j < length ts \<Longrightarrow>
   \<forall>i<Suc j. \<exists>err. outcome (k + i) = Inl err \<and> rateLimited err \<Longrightarrow>
   ts ! j = (timesTwo ^^ Suc j) d"
proof (induction ts arbitrary: k d j)
  case Nil
  then show ?case by simp
next
  case (Cons t ts)
  from Cons.prems(3) obtain err where err: "outcome k = Inl err" "rateLimited err"
    by fastforce
  with Cons.prems(1) have t: "t = timesTwo d" and rest: "escalates outcome (Suc k) t ts"
    by auto
  show ?case
  proof (cases j)
    case 0
    then show ?thesis using t by simp
  next
    case (Suc j')
    with Cons.prems(2) have j': "j' < length ts" by simp
    have "\<forall>i<Suc j'. \<exists>err. outcome (Suc k + i) = Inl err \<and> rateLimited err"
    proof (intro allI impI)
      fix i assume "i < Suc j'"
      then have "Suc i < Suc j" using Suc by simp
      with Cons.prems(3) have "\<exists>err. outcome (k + Suc i) = Inl err \<and> rateLimited err" by blast
      then show "\<exists>err. outcome (Suc k + i) = Inl err \<and> rateLimited err" by simp
    qed
    from Cons.IH [OF rest j' this] have "ts ! j' = (timesTwo ^^ Suc j') (timesTwo d)"
      unfolding t .
    also have "\<dots> = (timesTwo ^^ Suc (Suc j')) d"
      by (simp only: funpow.simps o_apply funpow_swap1)
    finally show ?thesis using Suc by simp
  qed
qed



subsection \<open>Further facts about runs\<close>

lemma rateLimited_iff:
  "rateLimited err \<longleftrightarrow> (\<exists>r. response err = Some r \<and> status r = 429)"
  by (simp add: rateLimited_def split: option.splits)

lemma retry_once:
  assumes "axios this options (sends tr) = Inl err"
    and "axios this options (Suc (sends tr)) = Inr resp"
    and "maxNumberAttempts cfg \<le> 0 \<or> attempts cfg < maxNumberAttempts cfg"
  shows "doRequest (Suc (Suc n)) this options cfg tr =
     (Resolved resp,
      tr @ [AxiosCall, LoggerError (message err), LoggerDebugRetryingIn (retryDelay cfg),
            SetTimeout (if rateLimited err then timesTwo (retryDelay cfg) else retryDelay cfg),
            LoggerDebugAttempt (attempts cfg + 1), AxiosCall])"
proof -
  let ?tr = "tr @ [AxiosCall, LoggerError (message err), LoggerDebugRetryingIn (retryDelay cfg),
              SetTimeout (if rateLimited err then timesTwo (retryDelay cfg) else retryDelay cfg),
              LoggerDebugAttempt (attempts cfg + 1)]"
  have "axios this options (sends ?tr) = Inr resp"
    using assms(2) by simp
  then show ?thesis
    unfolding doRequest_retries [OF assms(1) assms(3)] by (simp add: doRequest_resolves)
qed

lemma retries_scheduled:
  assumes "\<forall>i<k. isl (axios this options (sends tr + i))"
    and "maxNumberAttempts cfg \<le> 0 \<or> attempts cfg + int k \<le> maxNumberAttempts cfg"
    and "k \<le> n"
  shows "sends tr + k + 1 \<le> sends (snd (doRequest n this options cfg tr))"
  using assms
proof (induction k arbitrary: n cfg tr)
  case 0
  from run_events [of n this options cfg tr] obtain ev where
    "snd (doRequest n this options cfg tr) = tr @ AxiosCall # ev" by blast
  then show ?case by simp
next
  case (Suc k)
  then obtain n' where n: "n = Suc n'" by (cases n) auto
  from Suc.prems(1) obtain err where err: "axios this options (sends tr) = Inl err"
    by (rule first_call_fails)
  from Suc.prems(2) have go: "maxNumberAttempts cfg \<le> 0 \<or> attempts cfg < maxNumberAttempts cfg"
    by auto
  let ?cfg = "\<lparr>attempts = attempts cfg + 1,
        retryDelay = (if rateLimited err then timesTwo (retryDelay cfg) else retryDelay cfg),
        maxNumberAttempts = maxNumberAttempts cfg\<rparr>"
  let ?tr = "tr @ [AxiosCall, LoggerError (message err), LoggerDebugRetryingIn (retryDelay cfg),
              SetTimeout (if rateLimited err then timesTwo (retryDelay cfg) else retryDelay cfg),
              LoggerDebugAttempt (attempts cfg + 1)]"
  have s: "sends ?tr = Suc (sends tr)" by simp
  have a: "\<forall>i<k. isl (axios this options (sends ?tr + i))"
    unfolding s using Suc.prems(1) by (rule later_calls_fail)
  have c: "maxNumberAttempts ?cfg \<le> 0 \<or> attempts ?cfg + int k \<le> maxNumberAttempts ?cfg"
    using Suc.prems(2) by auto
  have d: "k \<le> n'" using Suc.prems(3) n by simp
  from Suc.IH [OF a c d] show ?case
    unfolding n doRequest_retries [OF err go] by (simp only: s)
qed


lemma request_trace:
  assumes "d = (case rDelay of None \<Rightarrow> defaultRetryDelay this
                | Some v \<Rightarrow> if v = 0 then defaultRetryDelay this else v)"
    and "tr = snd (request n this options rDelay maxAttempts)"
  shows "sends tr = Suc (length (timers tr))
     \<and> escalates (axios this options) 0 (Num d) (timers tr)
     \<and> delaysLogged tr = butlast (Num d # timers tr)
     \<and> countsUp 0 (attemptsLogged tr)
     \<and> length (attemptsLogged tr) = length (timers tr)"
proof -
  let ?cfg = "\<lparr>attempts = 0, retryDelay = Num d,
     maxNumberAttempts = (case maxAttempts of None \<Rightarrow> defaultMaxNumberAttempts this | Some m \<Rightarrow> m)\<rparr>"
  have r: "request n this options rDelay maxAttempts = doRequest n this options ?cfg []"
    using assms(1) by (simp add: request_def split: option.splits)
  from run_events [of n this options ?cfg "[]"] show ?thesis
    unfolding assms(2) r by auto
qed


lemma failures_stay_pending:
  assumes "\<forall>i<n. isl (axios this options (sends tr + i))"
    and "maxNumberAttempts cfg \<le> 0 \<or> attempts cfg + int n \<le> maxNumberAttempts cfg"
  shows "fst (doRequest n this options cfg tr) = Pending
     \<and> sends (snd (doRequest n this options cfg tr)) = sends tr + n + 1"
  using assms
proof (induction n arbitrary: cfg tr)
  case 0
  show ?case by simp
next
  case (Suc n)
  from Suc.prems(1) obtain err where err: "axios this options (sends tr) = Inl err"
    by (rule first_call_fails)
  from Suc.prems(2) have go: "maxNumberAttempts cfg \<le> 0 \<or> attempts cfg < maxNumberAttempts cfg"
    by auto
  let ?cfg = "\<lparr>attempts = attempts cfg + 1,
        retryDelay = (if rateLimited err then timesTwo (retryDelay cfg) else retryDelay cfg),
        maxNumberAttempts = maxNumberAttempts cfg\<rparr>"
  let ?tr = "tr @ [AxiosCall, LoggerError (message err), LoggerDebugRetryingIn (retryDelay cfg),
              SetTimeout (if rateLimited err then timesTwo (retryDelay cfg) else retryDelay cfg),
              LoggerDebugAttempt (attempts cfg + 1)]"
  have s: "sends ?tr = Suc (sends tr)" by simp
  have a: "\<forall>i<n. isl (axios this options (sends ?tr + i))"
    unfolding s using Suc.prems(1) by (rule later_calls_fail)
  have c: "maxNumberAttempts ?cfg \<le> 0 \<or> attempts ?cfg + int n \<le> maxNumberAttempts ?cfg"
    using Suc.prems(2) by auto
  from Suc.IH [OF a c] show ?case
    unfolding doRequest_retries [OF err go] by (simp only: s) simp
qed

lemma doRequest_reads_axios_only:
  assumes "axios that = axios this"
  shows "doRequest n that options cfg tr = doRequest n this options cfg tr"
proof (induction n arbitrary: cfg tr)
  case 0
  show ?case by simp
next
  case (Suc n)
  show ?case
  proof (cases "axios this options (sends tr)")
    case (Inr resp)
    then have "axios that options (sends tr) = Inr resp" by (simp add: assms)
    with Inr show ?thesis by (simp add: doRequest_resolves)
  next
    case (Inl err)
    then have that: "axios that options (sends tr) = Inl err" by (simp add: assms)
    show ?thesis
    proof (cases "0 < maxNumberAttempts cfg \<and> maxNumberAttempts cfg \<le> attempts cfg")
      case True
      then show ?thesis by (simp add: doRequest_rejects [OF Inl] doRequest_rejects [OF that])
    next
      case False
      then have go: "maxNumberAttempts cfg \<le> 0 \<or> attempts cfg < maxNumberAttempts cfg"
        by auto
      show ?thesis
        unfolding doRequest_retries [OF Inl go] doRequest_retries [OF that go] by (rule Suc.IH)
    qed
  qed
qed

lemmas run_defs =
  request_def client100x2_def new_DojotClientHttp_def always500_def always429_def once429_def
  onceDown_def thrice500_def mixedFailures_def always200_def error500_def error429_def networkError_def ok200_def
  rateLimited_def doRequest.simps(2) retry.simps Let_def overflowAt_def

subsection \<open>A first attempt that succeeds\<close>

text \<open>
  C6. When the first call of the transport succeeds, the promise resolves with that response
  and the only event of the whole request is that one call: no log line of \<^verbatim>\<open>retry\<close> is
  written and no timer is set.
\<close>

theorem first_success_no_retry:
  assumes "axios this options 0 = Inr resp"
  shows "request (Suc n) this options rDelay maxAttempts = (Resolved resp, [AxiosCall])"
  using assms by (simp add: request_def doRequest_resolves)

theorem first_success_no_retry_witness:
  "axios (client100x2 always200) ''GET /device'' 0 = Inr ok200
   \<and> request (Suc 0) (client100x2 always200) ''GET /device'' None None
       = (Resolved ok200, [AxiosCall])"
  using first_success_no_retry [of "client100x2 always200" "''GET /device''" ok200 0 None None]
  by (simp add: client100x2_def new_DojotClientHttp_def always200_def)

subsection \<open>A transport that always fails, under a positive cap\<close>

text \<open>
  C1, at the scenario it names. With a delay of 100 ms and a cap of 2, against a transport
  that answers 500 every time, the promise is still pending after two failed calls (the third
  call is under way), and it is rejected only when the third call has failed: three calls, not
  two.
\<close>

theorem cap_two_takes_three_sends:
  "fst (request 2 (client100x2 always500) ''GET /device'' None None) = Pending
   \<and> request 3 (client100x2 always500) ''GET /device'' None None =
       (Rejected (Error ''Number of attempts exceeded.'' None),
        [AxiosCall, LoggerError ''Request failed with status code 500'',
         LoggerDebugRetryingIn (Num 100), SetTimeout (Num 100), LoggerDebugAttempt 1,
         AxiosCall, LoggerError ''Request failed with status code 500'',
         LoggerDebugRetryingIn (Num 100), SetTimeout (Num 100), LoggerDebugAttempt 2,
         AxiosCall])
   \<and> sends (snd (request 3 (client100x2 always500) ''GET /device'' None None)) \<noteq> 2"
  by (simp add: run_defs eval_nat_numeral)

text \<open>
  C1, as the code has it. The check \<^verbatim>\<open>attempts >= maxNumberAttempts\<close> runs after a failure and
  before the counter is incremented, so the cap counts retries: for every cap \<open>m > 0\<close>,
  against a transport that fails every call, the promise is pending as long as at most \<open>m\<close>
  outcomes have arrived and is rejected with the attempts-exceeded error once \<open>m + 1\<close> calls have
  failed; no further call is made.
\<close>

theorem attempts_exceeded_after_cap_plus_one:
  assumes "\<forall>k. isl (axios this options k)"
    and "m = (case maxAttempts of None \<Rightarrow> defaultMaxNumberAttempts this | Some v \<Rightarrow> v)"
    and "0 < m"
  shows "fst (request n this options rDelay maxAttempts)
           = (if nat m < n then Rejected (Error ''Number of attempts exceeded.'' None) else Pending)
     \<and> sends (snd (request n this options rDelay maxAttempts)) = min n (nat m) + 1"
proof -
  let ?cfg = "\<lparr>attempts = 0,
     retryDelay = Num (case rDelay of None \<Rightarrow> defaultRetryDelay this
                   | Some d \<Rightarrow> if d \<noteq> 0 then d else defaultRetryDelay this),
     maxNumberAttempts = m\<rparr>"
  have r: "request n this options rDelay maxAttempts = doRequest n this options ?cfg []"
    using assms(2) by (simp add: request_def split: option.splits)
  show ?thesis
  proof (cases "nat m < n")
    case True
    have a: "\<forall>i<Suc (nat m). isl (axios this options (sends [] + i))"
      using assms(1) by simp
    have b: "0 < maxNumberAttempts ?cfg" using assms(3) by simp
    have c: "attempts ?cfg + int (nat m) = maxNumberAttempts ?cfg" using assms(3) by simp
    from failures_exhaust [OF a b c True] True show ?thesis
      unfolding r by simp
  next
    case False
    have a: "\<forall>i<n. isl (axios this options (sends [] + i))"
      using assms(1) by simp
    have c: "maxNumberAttempts ?cfg \<le> 0 \<or> attempts ?cfg + int n \<le> maxNumberAttempts ?cfg"
      using False by (simp add: not_less) linarith
    from failures_stay_pending [OF a c] False show ?thesis
      unfolding r by simp
  qed
qed

theorem attempts_exceeded_after_cap_plus_one_witness:
  "fst (request 3 (client100x2 always500) ''GET /device'' None None)
     = Rejected (Error ''Number of attempts exceeded.'' None)
   \<and> sends (snd (request 3 (client100x2 always500) ''GET /device'' None None)) = 3"
proof -
  have a: "\<forall>k. isl (axios (client100x2 always500) ''GET /device'' k)"
    by (simp add: client100x2_def new_DojotClientHttp_def always500_def)
  have b: "(2::int) = (case None of None \<Rightarrow> defaultMaxNumberAttempts (client100x2 always500)
                       | Some v \<Rightarrow> v)"
    by (simp add: client100x2_def new_DojotClientHttp_def)
  have c: "(0::int) < 2" by simp
  from attempts_exceeded_after_cap_plus_one [OF a b c, of 3 None] show ?thesis
    by simp
qed

subsection \<open>One failure, then success\<close>

text \<open>
  C2, at the scenario it names. With a delay of 100 ms and a cap of 2, against a transport
  that answers 429 to the first call and 200 to the second, the promise resolves with the
  second response, the debug line reads 100, and the timer before the second call is set to
  200 ms, not to 100 ms.
\<close>

theorem rate_limited_once_waits_200:
  "request 2 (client100x2 once429) ''GET /device'' None None =
     (Resolved ok200,
      [AxiosCall, LoggerError ''Request failed with status code 429'',
       LoggerDebugRetryingIn (Num 100), SetTimeout (Num 200), LoggerDebugAttempt 1, AxiosCall])
   \<and> timers (snd (request 2 (client100x2 once429) ''GET /device'' None None)) \<noteq> [Num 100]"
  by (simp add: run_defs eval_nat_numeral)

text \<open>
  C2, as the code has it. \<^verbatim>\<open>setTimeout\<close> is given \<^verbatim>\<open>newRetryDelay\<close>: for a client built with a
  delay of 100 ms and a cap of 2, when the first call fails with status 429 and the second
  succeeds, the promise resolves with the second response and the wait before the second call
  is 200 ms; the doubling already applies to the wait being scheduled.
\<close>

theorem rate_limited_once_then_success:
  assumes "transport options 0 = Inl err"
    and "response err = Some r"
    and "status r = 429"
    and "transport options 1 = Inr resp"
  shows "request (Suc (Suc n)) (new_DojotClientHttp transport (Some 100) (Some 2)) options None None =
     (Resolved resp,
      [AxiosCall, LoggerError (message err), LoggerDebugRetryingIn (Num 100), SetTimeout (Num 200),
       LoggerDebugAttempt 1, AxiosCall])"
proof -
  let ?client = "new_DojotClientHttp transport (Some 100) (Some 2)"
  let ?cfg = "\<lparr>attempts = 0, retryDelay = Num 100, maxNumberAttempts = 2\<rparr>"
  have r: "request (Suc (Suc n)) ?client options None None = doRequest (Suc (Suc n)) ?client options ?cfg []"
    by (simp add: request_def new_DojotClientHttp_def)
  have a: "axios ?client options (sends []) = Inl err"
    using assms(1) by (simp add: new_DojotClientHttp_def)
  have b: "axios ?client options (Suc (sends [])) = Inr resp"
    using assms(4) by (simp add: new_DojotClientHttp_def)
  have c: "maxNumberAttempts ?cfg \<le> 0 \<or> attempts ?cfg < maxNumberAttempts ?cfg"
    by simp
  have d: "rateLimited err"
    using assms(2,3) by (simp add: rateLimited_iff)
  from retry_once [OF a b c, of n] d show ?thesis
    unfolding r by (simp add: overflowAt_def)
qed

theorem rate_limited_once_then_success_witness:
  "request 2 (new_DojotClientHttp once429 (Some 100) (Some 2)) ''GET /device'' None None =
     (Resolved ok200,
      [AxiosCall, LoggerError ''Request failed with status code 429'',
       LoggerDebugRetryingIn (Num 100), SetTimeout (Num 200), LoggerDebugAttempt 1, AxiosCall])"
proof -
  have a: "once429 ''GET /device'' 0 = Inl error429" by (simp add: once429_def)
  have b: "response error429 = Some (Response 429 '''')" by (simp add: error429_def)
  have c: "status (Response 429 '''') = 429" by simp
  have d: "once429 ''GET /device'' 1 = Inr ok200" by (simp add: once429_def)
  from rate_limited_once_then_success
         [of once429 "''GET /device''" error429 "Response 429 ''''" ok200 0, OF a b c d]
  show ?thesis
    by (simp add: error429_def eval_nat_numeral)
qed

text \<open>
  C7. When the first call fails with anything but a 429 response and the second succeeds, the
  promise resolves with the second response, and exactly one timer was set in between, with
  the configured delay: the per-call delay when one is given and is not zero, the default of
  the instance otherwise.
\<close>

theorem one_failure_then_success:
  assumes "axios this options 0 = Inl err"
    and "\<not> rateLimited err"
    and "axios this options 1 = Inr resp"
    and "d = (case rDelay of None \<Rightarrow> defaultRetryDelay this
              | Some v \<Rightarrow> if v = 0 then defaultRetryDelay this else v)"
  shows "request (Suc (Suc n)) this options rDelay maxAttempts =
     (Resolved resp,
      [AxiosCall, LoggerError (message err), LoggerDebugRetryingIn (Num d), SetTimeout (Num d),
       LoggerDebugAttempt 1, AxiosCall])
     \<and> timers (snd (request (Suc (Suc n)) this options rDelay maxAttempts)) = [Num d]"
proof -
  let ?cfg = "\<lparr>attempts = 0, retryDelay = Num d,
     maxNumberAttempts = (case maxAttempts of None \<Rightarrow> defaultMaxNumberAttempts this | Some m \<Rightarrow> m)\<rparr>"
  have r: "request (Suc (Suc n)) this options rDelay maxAttempts
             = doRequest (Suc (Suc n)) this options ?cfg []"
    using assms(4) by (simp add: request_def split: option.splits)
  have a: "axios this options (sends []) = Inl err"
    using assms(1) by simp
  have b: "axios this options (Suc (sends [])) = Inr resp"
    using assms(3) by simp
  have c: "maxNumberAttempts ?cfg \<le> 0 \<or> attempts ?cfg < maxNumberAttempts ?cfg"
    by force
  from retry_once [OF a b c, of n] assms(2) show ?thesis
    unfolding r by simp
qed

theorem one_failure_then_success_witness:
  "request 2 (client100x2 onceDown) ''GET /device'' (Some 250) None =
     (Resolved ok200,
      [AxiosCall, LoggerError ''Network Error'', LoggerDebugRetryingIn (Num 250), SetTimeout (Num 250),
       LoggerDebugAttempt 1, AxiosCall])
   \<and> timers (snd (request 2 (client100x2 onceDown) ''GET /device'' (Some 250) None)) = [Num 250]"
proof -
  have a: "axios (client100x2 onceDown) ''GET /device'' 0 = Inl networkError"
    by (simp add: client100x2_def new_DojotClientHttp_def onceDown_def)
  have b: "\<not> rateLimited networkError"
    by (simp add: rateLimited_def networkError_def)
  have c: "axios (client100x2 onceDown) ''GET /device'' 1 = Inr ok200"
    by (simp add: client100x2_def new_DojotClientHttp_def onceDown_def)
  have d: "(250::int) = (case Some 250 of None \<Rightarrow> defaultRetryDelay (client100x2 onceDown)
              | Some v \<Rightarrow> if v = 0 then defaultRetryDelay (client100x2 onceDown) else v)"
    by simp
  from one_failure_then_success [OF a b c d, of 0 None] show ?thesis
    by (simp add: networkError_def eval_nat_numeral)
qed

subsection \<open>How the delay evolves\<close>





text \<open>
  C10, at a delay where the closed form fails. With a resolved delay of \<open>2 ^ 1023\<close> ms, which
  a double holds, one 429 failure sets the timer to \<^verbatim>\<open>Infinity\<close>, not to \<open>2 ^ 1023 * 2 ^ 1\<close>: the
  product is a JavaScript product, not one of exact integers.
\<close>

theorem huge_delay_overflows:
  "timers (snd (request 1 (new_DojotClientHttp always429 (Some (2 ^ 1023)) (Some 0))
                  ''GET /device'' None None))
     = [PlusInfinity]
   \<and> timers (snd (request 1 (new_DojotClientHttp always429 (Some (2 ^ 1023)) (Some 0))
                      ''GET /device'' None None)) ! (1 - 1)
     \<noteq> Num (2 ^ 1023 * 2 ^ 1)"
  by (simp add: run_defs eval_nat_numeral)

text \<open>
  C10, as the code has it. When the first \<open>k\<close> calls of a request all fail with a 429
  response, and the cap lets \<open>k\<close> retries through (it is not positive, or it is at least \<open>k\<close>),
  then once those \<open>k\<close> outcomes have arrived \<open>k\<close> timers have been set and the last of them,
  the wait before call number \<open>k\<close>, is the resolved delay \<open>d\<close> of the request doubled \<open>k\<close>
  times in JavaScript arithmetic: \<open>d * 2 ^ k\<close> as long as that stays within the range of a
  double, \<^verbatim>\<open>Infinity\<close> once it reaches \<open>2 ^ 1024\<close>, and \<^verbatim>\<open>-Infinity\<close> once it reaches
  \<open>- 2 ^ 1024\<close>.
\<close>

theorem consecutive_429_delay_geometric:
  assumes "tr = snd (request n this options rDelay maxAttempts)"
    and "d = (case rDelay of None \<Rightarrow> defaultRetryDelay this
              | Some v \<Rightarrow> if v = 0 then defaultRetryDelay this else v)"
    and "m = (case maxAttempts of None \<Rightarrow> defaultMaxNumberAttempts this | Some v \<Rightarrow> v)"
    and "\<forall>i<k. \<exists>err r. axios this options i = Inl err \<and> response err = Some r \<and> status r = 429"
    and "0 < k"
    and "k \<le> n"
    and "m \<le> 0 \<or> int k \<le> m"
    and "- overflowAt < d"
    and "d < overflowAt"
  shows "k \<le> length (timers tr)
     \<and> timers tr ! (k - 1) =
         (if overflowAt \<le> d * 2 ^ k then PlusInfinity
          else if d * 2 ^ k \<le> - overflowAt then MinusInfinity
          else Num (d * 2 ^ k))"
proof -
  let ?cfg = "\<lparr>attempts = 0, retryDelay = Num d, maxNumberAttempts = m\<rparr>"
  have r: "request n this options rDelay maxAttempts = doRequest n this options ?cfg []"
    using assms(2,3) by (simp add: request_def split: option.splits)
  from request_trace [OF assms(2) assms(1)] have
    e: "escalates (axios this options) 0 (Num d) (timers tr)"
    and s: "sends tr = Suc (length (timers tr))"
    by simp_all
  have f: "\<forall>i<k. isl (axios this options (sends [] + i))"
    using assms(4) by auto
  have c: "maxNumberAttempts ?cfg \<le> 0 \<or> attempts ?cfg + int k \<le> maxNumberAttempts ?cfg"
    using assms(7) by simp
  from retries_scheduled [OF f c assms(6)] have "k + 1 \<le> sends tr"
    unfolding assms(1) r by simp
  with s have len: "k \<le> length (timers tr)" by simp
  from assms(5) obtain k' where k: "k = Suc k'" by (cases k) auto
  from len k have j: "k' < length (timers tr)" by simp
  have "\<forall>i<Suc k'. \<exists>err. axios this options (0 + i) = Inl err \<and> rateLimited err"
    using assms(4) unfolding k rateLimited_iff by auto
  from escalates_geometric [OF e j this]
  have "timers tr ! k' = (timesTwo ^^ Suc k') (Num d)" .
  then have "timers tr ! (k - 1) = (timesTwo ^^ k) (Num d)"
    unfolding k by simp
  with len show ?thesis
    unfolding timesTwo_funpow [OF assms(8) assms(9)] by blast
qed

theorem consecutive_429_delay_geometric_witness:
  "(3::nat) \<le> length (timers (snd (request 3 (client100x2 always429) ''GET /device'' None (Some 0))))
   \<and> timers (snd (request 3 (client100x2 always429) ''GET /device'' None (Some 0))) ! (3 - 1)
       = Num (100 * 2 ^ 3)
   \<and> 100 * 2 ^ 3 = (800::int)
   \<and> timers (snd (request 1 (new_DojotClientHttp always429 (Some (2 ^ 1023)) (Some 0))
                      ''GET /device'' None None)) ! (1 - 1)
       = PlusInfinity"
proof -
  let ?huge = "new_DojotClientHttp always429 (Some (2 ^ 1023)) (Some 0)"
  have hd: "(2 ^ 1023 :: int) = (case None of None \<Rightarrow> defaultRetryDelay ?huge
              | Some v \<Rightarrow> if v = 0 then defaultRetryDelay ?huge else v)"
    by (simp add: new_DojotClientHttp_def)
  have hm: "(0::int) = (case None of None \<Rightarrow> defaultMaxNumberAttempts ?huge | Some v \<Rightarrow> v)"
    by (simp add: new_DojotClientHttp_def)
  have hf: "\<forall>i<1. \<exists>err r. axios ?huge ''GET /device'' i = Inl err
             \<and> response err = Some r \<and> status r = 429"
    by (simp add: new_DojotClientHttp_def always429_def error429_def)
  have hp: "(0::nat) < 1" by simp
  have hq: "(1::nat) \<le> 1" by simp
  have hc: "(0::int) \<le> 0 \<or> int 1 \<le> 0" by simp
  have hlo: "- overflowAt < 2 ^ 1023" by (simp add: overflowAt_def)
  have hhi: "2 ^ 1023 < overflowAt" by (simp add: overflowAt_def)
  have outside: "overflowAt \<le> 2 ^ 1023 * 2 ^ 1" by (simp add: overflowAt_def)
  from consecutive_429_delay_geometric [OF refl hd hm hf hp hq hc hlo hhi] outside
  have huge: "timers (snd (request 1 ?huge ''GET /device'' None None)) ! (1 - 1) = PlusInfinity"
    by simp
  have d: "(100::int) = (case None of None \<Rightarrow> defaultRetryDelay (client100x2 always429)
              | Some v \<Rightarrow> if v = 0 then defaultRetryDelay (client100x2 always429) else v)"
    by (simp add: client100x2_def new_DojotClientHttp_def)
  have m: "(0::int) = (case Some 0 of None \<Rightarrow> defaultMaxNumberAttempts (client100x2 always429)
              | Some v \<Rightarrow> v)"
    by simp
  have f: "\<forall>i<3. \<exists>err r. axios (client100x2 always429) ''GET /device'' i = Inl err
             \<and> response err = Some r \<and> status r = 429"
    by (simp add: client100x2_def new_DojotClientHttp_def always429_def error429_def)
  have p: "(0::nat) < 3" by simp
  have q: "(3::nat) \<le> 3" by simp
  have c: "(0::int) \<le> 0 \<or> int 3 \<le> 0" by simp
  have lo: "- overflowAt < 100" by (simp add: overflowAt_def)
  have hi: "100 < overflowAt" by (simp add: overflowAt_def)
  have inside: "\<not> overflowAt \<le> 100 * 2 ^ 3 \<and> \<not> 100 * 2 ^ 3 \<le> - overflowAt"
    by (simp add: overflowAt_def)
  from consecutive_429_delay_geometric [OF refl d m f p q c lo hi] inside huge show ?thesis
    by simp
qed

subsection \<open>A cap of zero, or below\<close>

text \<open>
  C4. A cap of 0 passed to \<^verbatim>\<open>request\<close> is taken as given, whatever the default of the instance
  (the run is that of an instance whose default is 0, called without a cap). The promise
  is then never rejected, and when the transport fails any \<open>k\<close> calls and answers the next
  one, the promise resolves with that answer after \<open>k + 1\<close> calls.
\<close>

theorem explicit_zero_is_unbounded:
  assumes "\<forall>i<k. isl (axios this options i)"
    and "axios this options k = Inr resp"
    and "k < n"
  shows "fst (request n this options rDelay (Some 0)) = Resolved resp
     \<and> sends (snd (request n this options rDelay (Some 0))) = k + 1
     \<and> (\<forall>n' e. fst (request n' this options rDelay (Some 0)) \<noteq> Rejected e)
     \<and> request n this options rDelay (Some 0)
         = request n (this\<lparr>defaultMaxNumberAttempts := 0\<rparr>) options rDelay None"
proof -
  let ?cfg = "\<lparr>attempts = 0,
     retryDelay = Num (case rDelay of None \<Rightarrow> defaultRetryDelay this
                   | Some d \<Rightarrow> if d \<noteq> 0 then d else defaultRetryDelay this),
     maxNumberAttempts = 0\<rparr>"
  have r: "\<And>n'. request n' this options rDelay (Some 0) = doRequest n' this options ?cfg []"
    by (simp add: request_def)
  have a: "\<forall>i<k. isl (axios this options (sends [] + i))" using assms(1) by simp
  have b: "axios this options (sends [] + k) = Inr resp" using assms(2) by simp
  have c: "maxNumberAttempts ?cfg \<le> 0 \<or> attempts ?cfg + int k \<le> maxNumberAttempts ?cfg"
    by simp
  have u: "maxNumberAttempts ?cfg \<le> 0" by simp
  have same: "\<And>j c t. doRequest j (this\<lparr>defaultMaxNumberAttempts := 0\<rparr>) options c t
                  = doRequest j this options c t"
    by (rule doRequest_reads_axios_only) simp
  have d: "request n this options rDelay (Some 0)
         = request n (this\<lparr>defaultMaxNumberAttempts := 0\<rparr>) options rDelay None"
    by (simp add: request_def same split: option.splits)
  have p: "fst (request n this options rDelay (Some 0)) = Resolved resp
     \<and> sends (snd (request n this options rDelay (Some 0))) = k + 1"
    unfolding r using failures_then_success [OF a b c assms(3)] by simp
  have q: "\<forall>n' e. fst (request n' this options rDelay (Some 0)) \<noteq> Rejected e"
  proof (intro allI)
    fix n' e
    show "fst (request n' this options rDelay (Some 0)) \<noteq> Rejected e"
      unfolding r by (rule unbounded_never_rejects [OF u])
  qed
  from p q d show ?thesis by blast
qed

theorem explicit_zero_is_unbounded_witness:
  "fst (request 4 (client100x2 thrice500) ''GET /device'' None (Some 0)) = Resolved ok200
   \<and> sends (snd (request 4 (client100x2 thrice500) ''GET /device'' None (Some 0))) = 3 + 1
   \<and> fst (request 4 (client100x2 thrice500) ''GET /device'' None None)
       = Rejected (Error ''Number of attempts exceeded.'' None)"
proof -
  have a: "\<forall>i<3. isl (axios (client100x2 thrice500) ''GET /device'' i)"
    by (simp add: client100x2_def new_DojotClientHttp_def thrice500_def)
  have b: "axios (client100x2 thrice500) ''GET /device'' 3 = Inr ok200"
    by (simp add: client100x2_def new_DojotClientHttp_def thrice500_def)
  have c: "(3::nat) < 4" by simp
  have x: "fst (request 4 (client100x2 thrice500) ''GET /device'' None None)
       = Rejected (Error ''Number of attempts exceeded.'' None)"
    by (simp add: run_defs eval_nat_numeral)
  from explicit_zero_is_unbounded [OF a b c, of None] x show ?thesis
    by blast
qed


text \<open>
  C9. A cap that is negative behaves as the cap 0, whether it is passed to \<^verbatim>\<open>request\<close> or is
  the default of the instance: the run is the same, event for event, the promise is never
  rejected, and against a transport that fails every call the promise stays pending and one
  more call is made for every outcome awaited.
\<close>

theorem nonpositive_cap_is_unbounded:
  assumes "m \<le> 0"
  shows "request n this options rDelay (Some m) = request n this options rDelay (Some 0)
     \<and> request n (this\<lparr>defaultMaxNumberAttempts := m\<rparr>) options rDelay None
         = request n this options rDelay (Some 0)
     \<and> (\<forall>e. fst (request n this options rDelay (Some m)) \<noteq> Rejected e)
     \<and> ((\<forall>k. isl (axios this options k)) \<longrightarrow>
          fst (request n this options rDelay (Some m)) = Pending
          \<and> sends (snd (request n this options rDelay (Some m))) = n + 1)"
proof -
  let ?d = "Num (case rDelay of None \<Rightarrow> defaultRetryDelay this
                 | Some d \<Rightarrow> if d \<noteq> 0 then d else defaultRetryDelay this)"
  let ?cfg = "\<lparr>attempts = 0, retryDelay = ?d, maxNumberAttempts = m\<rparr>"
  let ?unbounded = "\<lparr>attempts = 0, retryDelay = ?d, maxNumberAttempts = 0\<rparr>"
  have r: "request n this options rDelay (Some m) = doRequest n this options ?cfg []"
    by (simp add: request_def)
  have r0: "request n this options rDelay (Some 0) = doRequest n this options ?unbounded []"
    by (simp add: request_def)
  have rd: "request n (this\<lparr>defaultMaxNumberAttempts := m\<rparr>) options rDelay None
              = doRequest n (this\<lparr>defaultMaxNumberAttempts := m\<rparr>) options ?cfg []"
    by (simp add: request_def split: option.splits)
  have u: "maxNumberAttempts ?cfg \<le> 0" using assms by simp
  have e: "?cfg\<lparr>maxNumberAttempts := 0\<rparr> = ?unbounded" by simp
  have z: "doRequest n this options ?cfg [] = doRequest n this options ?unbounded []"
    using nonpositive_cap_as_zero [OF u, where n = n and this = this and options = options
      and tr = "[]"]
    unfolding e .
  have a: "request n this options rDelay (Some m) = request n this options rDelay (Some 0)"
    unfolding r r0 by (rule z)
  have "doRequest n (this\<lparr>defaultMaxNumberAttempts := m\<rparr>) options ?cfg []
          = doRequest n this options ?cfg []"
    by (rule doRequest_reads_axios_only) simp
  then have b: "request n (this\<lparr>defaultMaxNumberAttempts := m\<rparr>) options rDelay None
         = request n this options rDelay (Some 0)"
    unfolding rd r0 using z by simp
  have c: "\<forall>e. fst (request n this options rDelay (Some m)) \<noteq> Rejected e"
  proof
    fix e
    show "fst (request n this options rDelay (Some m)) \<noteq> Rejected e"
      unfolding r by (rule unbounded_never_rejects [OF u])
  qed
  have d: "(\<forall>k. isl (axios this options k)) \<longrightarrow>
          fst (request n this options rDelay (Some m)) = Pending
          \<and> sends (snd (request n this options rDelay (Some m))) = n + 1"
  proof
    assume "\<forall>k. isl (axios this options k)"
    then have f: "\<forall>i<n. isl (axios this options (sends [] + i))" by simp
    have g: "maxNumberAttempts ?cfg \<le> 0 \<or> attempts ?cfg + int n \<le> maxNumberAttempts ?cfg"
      using u by simp
    from failures_stay_pending [OF f g]
    show "fst (request n this options rDelay (Some m)) = Pending
          \<and> sends (snd (request n this options rDelay (Some m))) = n + 1"
      unfolding r by simp
  qed
  from a b c d show ?thesis by blast
qed

theorem nonpositive_cap_is_unbounded_witness:
  "request 5 (client100x2 always500) ''GET /device'' None (Some (- 1))
     = request 5 (client100x2 always500) ''GET /device'' None (Some 0)
   \<and> fst (request 5 (client100x2 always500) ''GET /device'' None (Some (- 1))) = Pending
   \<and> sends (snd (request 5 (client100x2 always500) ''GET /device'' None (Some (- 1)))) = 5 + 1
   \<and> fst (request 5 (client100x2 always500) ''GET /device'' None None)
       = Rejected (Error ''Number of attempts exceeded.'' None)"
proof -
  have m: "(- 1::int) \<le> 0" by simp
  have f: "\<forall>k. isl (axios (client100x2 always500) ''GET /device'' k)"
    by (simp add: client100x2_def new_DojotClientHttp_def always500_def)
  have x: "fst (request 5 (client100x2 always500) ''GET /device'' None None)
       = Rejected (Error ''Number of attempts exceeded.'' None)"
    by (simp add: run_defs eval_nat_numeral)
  from nonpositive_cap_is_unbounded [OF m, where n = 5 and this = "client100x2 always500"
         and options = "''GET /device''" and rDelay = None]
    f x
  show ?thesis by blast
qed

subsection \<open>What the promise settles with\<close>

text \<open>
  C5. When \<^verbatim>\<open>retry\<close> finds the cap reached it rejects with an error whose message is
  \<^verbatim>\<open>Number of attempts exceeded.\<close> and that carries no cause, whatever the failure handed to it
  (which is not even logged: the trace is left as it was). Over a whole request with the
  resolved cap \<open>m\<close>: when \<open>m\<close> is positive and the calls \<open>0\<close> to \<open>m\<close> all fail, whatever their
  kind, the promise is rejected with exactly that error once those outcomes have arrived; when
  the calls before \<open>k\<close> fail, call \<open>k\<close> succeeds and the cap lets \<open>k\<close> retries through, the
  promise resolves with the response the transport gave to call \<open>k\<close>, as it is; and in every
  run a rejected promise holds that error and a resolved promise holds the response to the last
  call.
\<close>

theorem rejection_is_fixed_error:
  assumes "m = (case maxAttempts of None \<Rightarrow> defaultMaxNumberAttempts this | Some v \<Rightarrow> v)"
  shows "(0 < maxNumberAttempts cfg \<and> maxNumberAttempts cfg \<le> attempts cfg \<longrightarrow>
            retry n' this err options cfg tr
              = (Rejected (Error ''Number of attempts exceeded.'' None), tr))
     \<and> (0 < m \<and> (\<forall>i<Suc (nat m). isl (axios this options i)) \<and> nat m < n \<longrightarrow>
            fst (request n this options rDelay maxAttempts)
              = Rejected (Error ''Number of attempts exceeded.'' None))
     \<and> ((\<forall>i<k. isl (axios this options i)) \<and> axios this options k = Inr resp
            \<and> (m \<le> 0 \<or> int k \<le> m) \<and> k < n \<longrightarrow>
            fst (request n this options rDelay maxAttempts) = Resolved resp)
     \<and> (case fst (request n this options rDelay maxAttempts) of
          Pending \<Rightarrow> True
        | Resolved resp \<Rightarrow>
            axios this options (sends (snd (request n this options rDelay maxAttempts)) - 1)
              = Inr resp
        | Rejected e \<Rightarrow> errorMessage e = ''Number of attempts exceeded.'' \<and> cause e = None)"
proof -
  let ?cfg = "\<lparr>attempts = 0,
     retryDelay = Num (case rDelay of None \<Rightarrow> defaultRetryDelay this
                       | Some d \<Rightarrow> if d \<noteq> 0 then d else defaultRetryDelay this),
     maxNumberAttempts = m\<rparr>"
  have r: "request n this options rDelay maxAttempts = doRequest n this options ?cfg []"
    using assms by (simp add: request_def split: option.splits)
  have a: "0 < maxNumberAttempts cfg \<and> maxNumberAttempts cfg \<le> attempts cfg \<longrightarrow>
            retry n' this err options cfg tr
              = (Rejected (Error ''Number of attempts exceeded.'' None), tr)"
    by (simp add: retry_exceeded)
  have b: "0 < m \<and> (\<forall>i<Suc (nat m). isl (axios this options i)) \<and> nat m < n \<longrightarrow>
            fst (request n this options rDelay maxAttempts)
              = Rejected (Error ''Number of attempts exceeded.'' None)"
  proof
    assume h: "0 < m \<and> (\<forall>i<Suc (nat m). isl (axios this options i)) \<and> nat m < n"
    then have f: "\<forall>i<Suc (nat m). isl (axios this options (sends [] + i))" by simp
    have p: "0 < maxNumberAttempts ?cfg" using h by simp
    have q: "attempts ?cfg + int (nat m) = maxNumberAttempts ?cfg" using h by simp
    have l: "nat m < n" using h by simp
    from failures_exhaust [OF f p q l]
    show "fst (request n this options rDelay maxAttempts)
              = Rejected (Error ''Number of attempts exceeded.'' None)"
      unfolding r by simp
  qed
  have c: "(\<forall>i<k. isl (axios this options i)) \<and> axios this options k = Inr resp
            \<and> (m \<le> 0 \<or> int k \<le> m) \<and> k < n \<longrightarrow>
            fst (request n this options rDelay maxAttempts) = Resolved resp"
  proof
    assume h: "(\<forall>i<k. isl (axios this options i)) \<and> axios this options k = Inr resp
            \<and> (m \<le> 0 \<or> int k \<le> m) \<and> k < n"
    then have f: "\<forall>i<k. isl (axios this options (sends [] + i))" by simp
    have g: "axios this options (sends [] + k) = Inr resp" using h by simp
    have p: "maxNumberAttempts ?cfg \<le> 0 \<or> attempts ?cfg + int k \<le> maxNumberAttempts ?cfg"
      using h by simp
    have l: "k < n" using h by simp
    from failures_then_success [OF f g p l]
    show "fst (request n this options rDelay maxAttempts) = Resolved resp"
      unfolding r by simp
  qed
  have d: "(case fst (request n this options rDelay maxAttempts) of
          Pending \<Rightarrow> True
        | Resolved resp \<Rightarrow>
            axios this options (sends (snd (request n this options rDelay maxAttempts)) - 1)
              = Inr resp
        | Rejected e \<Rightarrow> errorMessage e = ''Number of attempts exceeded.'' \<and> cause e = None)"
    using settled_values [where n = n and this = this and options = options and cfg = ?cfg
           and tr = "[]"]
    unfolding r by (cases "fst (doRequest n this options ?cfg [])") simp_all
  from a b c d show ?thesis by blast
qed

theorem rejection_is_fixed_error_witness:
  "retry 0 (client100x2 mixedFailures) networkError ''GET /device''
       \<lparr>attempts = 2, retryDelay = Num 100, maxNumberAttempts = 2\<rparr> [AxiosCall]
     = (Rejected (Error ''Number of attempts exceeded.'' None), [AxiosCall])
   \<and> retry 0 (client100x2 mixedFailures) error429 ''GET /device''
       \<lparr>attempts = 2, retryDelay = Num 100, maxNumberAttempts = 2\<rparr> [AxiosCall]
     = (Rejected (Error ''Number of attempts exceeded.'' None), [AxiosCall])
   \<and> fst (request 3 (client100x2 mixedFailures) ''GET /device'' None None)
     = Rejected (Error ''Number of attempts exceeded.'' None)
   \<and> fst (request 4 (client100x2 mixedFailures) ''GET /device'' None (Some 3))
     = Resolved ok200
   \<and> axios (client100x2 mixedFailures) ''GET /device''
         (sends (snd (request 4 (client100x2 mixedFailures) ''GET /device'' None (Some 3))) - 1)
     = Inr ok200"
proof -
  let ?client = "client100x2 mixedFailures"
  let ?cfg = "\<lparr>attempts = 2, retryDelay = Num 100, maxNumberAttempts = 2\<rparr>"
  have reached: "0 < maxNumberAttempts ?cfg \<and> maxNumberAttempts ?cfg \<le> attempts ?cfg"
    by simp
  have two: "(2::int) = (case None of None \<Rightarrow> defaultMaxNumberAttempts ?client | Some v \<Rightarrow> v)"
    by (simp add: client100x2_def new_DojotClientHttp_def)
  have three: "(3::int) = (case Some 3 of None \<Rightarrow> defaultMaxNumberAttempts ?client
                           | Some v \<Rightarrow> v)"
    by simp
  have fails: "0 < (2::int) \<and> (\<forall>i<Suc (nat 2). isl (axios ?client ''GET /device'' i))
                 \<and> nat 2 < (3::nat)"
    by (simp add: client100x2_def new_DojotClientHttp_def mixedFailures_def)
  have recovers: "(\<forall>i<3. isl (axios ?client ''GET /device'' i))
                 \<and> axios ?client ''GET /device'' 3 = Inr ok200
                 \<and> ((3::int) \<le> 0 \<or> int 3 \<le> 3) \<and> (3::nat) < 4"
    by (simp add: client100x2_def new_DojotClientHttp_def mixedFailures_def)
  note capped = rejection_is_fixed_error [OF two, where n = 3 and n' = 0 and cfg = ?cfg
      and options = "''GET /device''" and tr = "[AxiosCall]" and rDelay = None]
  note roomy = rejection_is_fixed_error [OF three, where n = 4 and k = 3 and resp = ok200
      and options = "''GET /device''" and rDelay = None]
  from capped [where err = networkError] reached
  have x1: "retry 0 ?client networkError ''GET /device'' ?cfg [AxiosCall]
     = (Rejected (Error ''Number of attempts exceeded.'' None), [AxiosCall])"
    by blast
  from capped [where err = error429] reached
  have x2: "retry 0 ?client error429 ''GET /device'' ?cfg [AxiosCall]
     = (Rejected (Error ''Number of attempts exceeded.'' None), [AxiosCall])"
    by blast
  from capped fails
  have x3: "fst (request 3 ?client ''GET /device'' None None)
     = Rejected (Error ''Number of attempts exceeded.'' None)"
    by blast
  from roomy recovers
  have x4: "fst (request 4 ?client ''GET /device'' None (Some 3)) = Resolved ok200"
    by blast
  from roomy x4
  have x5: "axios ?client ''GET /device''
         (sends (snd (request 4 ?client ''GET /device'' None (Some 3))) - 1) = Inr ok200"
    by simp
  from x1 x2 x3 x4 x5 show ?thesis by blast
qed

end
